theory Spec2Isabelle
  imports Complex_Main "HOL-Library.Stream" "HOL-Library.Log_Nat"
begin

section \<open>Python floats\<close>

text \<open>
  A Python \<^verbatim>\<open>float\<close> is an IEEE 754 binary64 number. A finite float is modelled by
  the real number it denotes, and every arithmetic operation rounds its exact result to
  the nearest binary64 number, ties to the even significand: 53 significant bits, the
  spacing of the subnormal numbers (\<open>2 powi - 1074\<close>) below \<open>2 powi - 1022\<close>. Infinities
  and NaN are not values of the model, and neither is the \<^verbatim>\<open>OverflowError\<close> of converting
  an integer beyond the range of a float: the model covers the computations whose results
  stay below the overflow threshold, as every ratio and revenue of a simulation does.
\<close>

text \<open>\<open>ilog2 x\<close> is the binary exponent of a positive \<open>x\<close>: \<open>2 powi ilog2 x \<le> x < 2 powi (ilog2 x + 1)\<close>.\<close>

definition ilog2 :: "real \<Rightarrow> int" where
  "ilog2 x = (if 1 \<le> x then bitlen \<lfloor>x\<rfloor> - 1 else - bitlen (\<lceil>1 / x\<rceil> - 1))"

definition round_half_even :: "real \<Rightarrow> int" where
  "round_half_even y =
     (let f = \<lfloor>y\<rfloor>; d = y - of_int f
      in if d < 1 / 2 then f else if 1 / 2 < d then f + 1 else if even f then f else f + 1)"

definition float_exponent :: "real \<Rightarrow> int" where
  "float_exponent x = max (ilog2 \<bar>x\<bar>) (- 1022)"

definition ulp :: "real \<Rightarrow> real" where
  "ulp x = 2 powi (float_exponent x - 52)"

definition fl :: "real \<Rightarrow> real" where
  "fl x = (if x = 0 then 0 else of_int (round_half_even (x / ulp x)) * ulp x)"

datatype py_error = ZeroDivisionError

definition float_of_int :: "int \<Rightarrow> real" where
  "float_of_int k = fl (of_int k)"

definition float_add :: "real \<Rightarrow> real \<Rightarrow> real" where
  "float_add x y = fl (x + y)"

definition float_sub :: "real \<Rightarrow> real \<Rightarrow> real" where
  "float_sub x y = fl (x - y)"

definition float_mul :: "real \<Rightarrow> real \<Rightarrow> real" where
  "float_mul x y = fl (x * y)"

text \<open>\<^verbatim>\<open>x / y\<close> on floats raises \<^verbatim>\<open>ZeroDivisionError\<close> when \<open>y\<close> is zero.\<close>

definition float_truediv :: "real \<Rightarrow> real \<Rightarrow> py_error + real" where
  "float_truediv x y = (if y = 0 then Inl ZeroDivisionError else Inr (fl (x / y)))"

text \<open>\<^verbatim>\<open>a / b\<close> on integers is the correctly rounded quotient.\<close>

definition int_truediv :: "int \<Rightarrow> int \<Rightarrow> py_error + real" where
  "int_truediv a b = (if b = 0 then Inl ZeroDivisionError else Inr (fl (of_int a / of_int b)))"

text \<open>\<^verbatim>\<open>int(x)\<close> truncates towards zero.\<close>

definition int_of_float :: "real \<Rightarrow> int" where
  "int_of_float x = (if 0 \<le> x then \<lfloor>x\<rfloor> else \<lceil>x\<rceil>)"


section \<open>The random module\<close>

text \<open>
  The simulations draw from Python's module-level generator: \<^verbatim>\<open>random.random()\<close>
  returns the next float of the current sequence and advances the generator,
  \<^verbatim>\<open>random.seed(s)\<close> restarts the sequence that belongs to \<open>s\<close>. The state of the
  generator is modelled by the sequence of draws it is still going to produce. The
  Mersenne Twister itself is library code outside the repository: the function that
  maps a seed to its sequence is a parameter \<open>mt\<close> of every simulation.
\<close>

type_synonym rng = "real stream"

definition random_random :: "rng \<Rightarrow> real \<times> rng" where
  "random_random g = (shd g, stl g)"

text \<open>\<^verbatim>\<open>if seed is not None: random.seed(seed)\<close>\<close>

definition reseed :: "(int \<Rightarrow> rng) \<Rightarrow> int option \<Rightarrow> rng \<Rightarrow> rng" where
  "reseed mt seed g = (case seed of None \<Rightarrow> g | Some s \<Rightarrow> mt s)"


section \<open>SimulationResult\<close>

record SimulationResult =
  alpha :: real
  gamma :: real
  rounds :: int
  attacker_blocks :: int
  honest_blocks :: int
  block_reward :: real
  avg_tx_fee_per_block :: real

text \<open>The constructor call of the simulations, which leaves the two economic fields at their defaults.\<close>

definition new_SimulationResult :: "real \<Rightarrow> real \<Rightarrow> int \<Rightarrow> int \<Rightarrow> int \<Rightarrow> SimulationResult" where
  "new_SimulationResult \<alpha> \<gamma> n ab hb =
     \<lparr>alpha = \<alpha>, gamma = \<gamma>, rounds = n, attacker_blocks = ab, honest_blocks = hb,
      block_reward = 6.25, avg_tx_fee_per_block = 0.5\<rparr>"

definition total_blocks :: "SimulationResult \<Rightarrow> int" where
  "total_blocks r = attacker_blocks r + honest_blocks r"

definition attacker_relative_reward :: "SimulationResult \<Rightarrow> py_error + real" where
  "attacker_relative_reward r =
     (if total_blocks r = 0 then Inr 0 else int_truediv (attacker_blocks r) (total_blocks r))"

definition honest_relative_reward :: "SimulationResult \<Rightarrow> py_error + real" where
  "honest_relative_reward r =
     (if total_blocks r = 0 then Inr 0 else int_truediv (honest_blocks r) (total_blocks r))"

definition attacker_revenue_btc :: "SimulationResult \<Rightarrow> real" where
  "attacker_revenue_btc r =
     float_mul (float_of_int (attacker_blocks r)) (float_add (block_reward r) (avg_tx_fee_per_block r))"

definition honest_revenue_btc :: "SimulationResult \<Rightarrow> real" where
  "honest_revenue_btc r =
     float_mul (float_of_int (honest_blocks r)) (float_add (block_reward r) (avg_tx_fee_per_block r))"

definition efficiency_advantage :: "SimulationResult \<Rightarrow> py_error + real" where
  "efficiency_advantage r =
     (if alpha r \<le> 0 then Inr 0
      else case attacker_relative_reward r of
             Inl e \<Rightarrow> Inl e
           | Inr x \<Rightarrow> float_truediv x (alpha r))"


section \<open>simulate_all_honest\<close>

fun honest_loop :: "real \<Rightarrow> nat \<Rightarrow> int \<times> int \<times> rng \<Rightarrow> int \<times> int \<times> rng" where
  "honest_loop \<alpha> 0 st = st"
| "honest_loop \<alpha> (Suc k) (ab, hb, g) =
     (let (r, g') = random_random g
      in if r < \<alpha> then honest_loop \<alpha> k (ab + 1, hb, g')
         else honest_loop \<alpha> k (ab, hb + 1, g'))"

definition simulate_all_honest ::
  "(int \<Rightarrow> rng) \<Rightarrow> real \<Rightarrow> int \<Rightarrow> int option \<Rightarrow> rng \<Rightarrow> SimulationResult \<times> rng" where
  "simulate_all_honest mt \<alpha> n seed g =
     (let g0 = reseed mt seed g;
          (ab, hb, g') = honest_loop \<alpha> (nat n) (0, 0, g0)
      in (new_SimulationResult \<alpha> 0 n ab hb, g'))"


section \<open>simulate_selfish_mining\<close>

text \<open>
  One pass through the body of the \<^verbatim>\<open>for\<close> loop, on the loop's variables
  \<open>(attacker_blocks, honest_blocks, lead)\<close> and the generator. Nothing in the body can
  raise: it compares floats and adds integers.
\<close>

definition selfish_round ::
  "real \<Rightarrow> real \<Rightarrow> int \<times> int \<times> int \<times> rng \<Rightarrow> int \<times> int \<times> int \<times> rng" where
  "selfish_round \<alpha> \<gamma> st =
     (case st of (ab, hb, lead, g) \<Rightarrow>
        let (r, g1) = random_random g
        in if r < \<alpha> then
             (if lead = 0 then (ab, hb, 1, g1) else (ab, hb, lead + 1, g1))
           else
             (if lead = 0 then (ab, hb + 1, lead, g1)
              else if lead = 1 then
                (let (r_fork, g2) = random_random g1
                 in if r_fork < \<gamma> then (ab + 2, hb, 0, g2) else (ab, hb + 2, 0, g2))
              else (ab + 1, hb, lead - 1, g1)))"

text \<open>\<^verbatim>\<open>for _ in range(rounds)\<close>: the body runs \<open>nat rounds\<close> times, not at all for a negative \<open>rounds\<close>.\<close>

fun selfish_loop ::
  "real \<Rightarrow> real \<Rightarrow> nat \<Rightarrow> int \<times> int \<times> int \<times> rng \<Rightarrow> int \<times> int \<times> int \<times> rng" where
  "selfish_loop \<alpha> \<gamma> 0 st = st"
| "selfish_loop \<alpha> \<gamma> (Suc k) st = selfish_loop \<alpha> \<gamma> k (selfish_round \<alpha> \<gamma> st)"

definition simulate_selfish_mining ::
  "(int \<Rightarrow> rng) \<Rightarrow> real \<Rightarrow> real \<Rightarrow> int \<Rightarrow> int option \<Rightarrow> rng \<Rightarrow> SimulationResult \<times> rng" where
  "simulate_selfish_mining mt \<alpha> \<gamma> n seed g =
     (let g0 = reseed mt seed g;
          (ab, hb, lead, g') = selfish_loop \<alpha> \<gamma> (nat n) (0, 0, 0, g0);
          ab' = (if lead > 0 then ab + lead else ab)
      in (new_SimulationResult \<alpha> \<gamma> n ab' hb, g'))"

subsection \<open>The state machine as the specification words it\<close>

text \<open>
  The specification's private-lead machine, on counters that are natural numbers: a draw
  below \<open>\<alpha>\<close> adds one to the lead whatever its value; otherwise the three cases
  \<open>lead = 0\<close>, \<open>lead = 1\<close> (with the second draw \<open>r_fork\<close>) and \<open>lead \<ge> 2\<close>.
\<close>

fun spec_rounds :: "real \<Rightarrow> real \<Rightarrow> nat \<Rightarrow> nat \<times> nat \<times> nat \<Rightarrow> rng \<Rightarrow> nat \<times> nat \<times> nat" where
  "spec_rounds \<alpha> \<gamma> 0 st g = st"
| "spec_rounds \<alpha> \<gamma> (Suc k) (ab, hb, lead) g =
     (if shd g < \<alpha> then spec_rounds \<alpha> \<gamma> k (ab, hb, lead + 1) (stl g)
      else if lead = 0 then spec_rounds \<alpha> \<gamma> k (ab, hb + 1, lead) (stl g)
      else if lead = 1 then
        (if shd (stl g) < \<gamma> then spec_rounds \<alpha> \<gamma> k (ab + 2, hb, 0) (stl (stl g))
         else spec_rounds \<alpha> \<gamma> k (ab, hb + 2, 0) (stl (stl g)))
      else spec_rounds \<alpha> \<gamma> k (ab + 1, hb, lead - 1) (stl g))"

text \<open>Settlement: a remaining lead is credited in full to the attacker.\<close>

definition spec_selfish_blocks :: "real \<Rightarrow> real \<Rightarrow> nat \<Rightarrow> rng \<Rightarrow> nat \<times> nat" where
  "spec_selfish_blocks \<alpha> \<gamma> k g =
     (case spec_rounds \<alpha> \<gamma> k (0, 0, 0) g of (ab, hb, lead) \<Rightarrow> (ab + lead, hb))"


section \<open>simulate_selfish_with_defense\<close>

definition simulate_selfish_with_defense ::
  "(int \<Rightarrow> rng) \<Rightarrow> real \<Rightarrow> real \<Rightarrow> real \<Rightarrow> int \<Rightarrow> bool \<Rightarrow> int option \<Rightarrow> rng
     \<Rightarrow> (SimulationResult \<times> SimulationResult) \<times> rng" where
  "simulate_selfish_with_defense mt \<alpha> gamma_attack gamma_defense n defense_enabled seed g =
     (let (result_no_defense, g1) = simulate_selfish_mining mt \<alpha> gamma_attack n seed g
      in if \<not> defense_enabled then ((result_no_defense, result_no_defense), g1)
         else
           let seed_defense = (case seed of None \<Rightarrow> None | Some s \<Rightarrow> Some (s + 1));
               (result_with_defense, g2) =
                  simulate_selfish_mining mt \<alpha> gamma_defense n seed_defense g1
           in ((result_no_defense, result_with_defense), g2))"


section \<open>pool_cooperative_mining\<close>

definition pool_cooperative_mining ::
  "(int \<Rightarrow> rng) \<Rightarrow> real \<Rightarrow> int \<Rightarrow> real \<Rightarrow> int \<Rightarrow> int option \<Rightarrow> rng \<Rightarrow> SimulationResult \<times> rng" where
  "pool_cooperative_mining mt \<alpha> num_pools \<gamma> n seed g =
     (let coordination_overhead = float_mul (fl 0.02) (float_of_int (num_pools - 1));
          effective_alpha = max 0 (float_sub \<alpha> coordination_overhead);
          (result, g') = simulate_selfish_mining mt effective_alpha \<gamma> n seed g
      in (result\<lparr>alpha := \<alpha>\<rparr>, g'))"


section \<open>mev_transaction_ordering\<close>

text \<open>The numeric entries of the returned dictionary (its \<^verbatim>\<open>summary\<close> string is presentation).\<close>

record mev_report =
  mev_alpha :: real
  mev_extract_probability :: real
  avg_mev_per_block_btc :: real
  mev_attacker_blocks :: int
  mev_extractable_blocks :: int
  base_revenue_btc :: real
  mev_revenue_btc :: real
  total_enhanced_revenue_btc :: real
  mev_honest_revenue_btc :: real
  revenue_advantage_vs_honest :: real
  revenue_per_hashrate :: real

definition mev_transaction_ordering ::
  "(int \<Rightarrow> rng) \<Rightarrow> real \<Rightarrow> real \<Rightarrow> real \<Rightarrow> real \<Rightarrow> int \<Rightarrow> int option \<Rightarrow> rng
     \<Rightarrow> (py_error + mev_report) \<times> rng" where
  "mev_transaction_ordering mt \<alpha> extract_probability avg_mev_per_block \<gamma> n seed g =
     (let (attacker_result, g') = simulate_selfish_mining mt \<alpha> \<gamma> n seed g;
          mev_blocks = int_of_float
             (float_mul (float_of_int (attacker_blocks attacker_result)) extract_probability);
          total_mev_revenue = float_mul (float_of_int mev_blocks) avg_mev_per_block;
          enhanced_revenue = float_add (attacker_revenue_btc attacker_result) total_mev_revenue;
          honest_revenue = honest_revenue_btc attacker_result
      in ((case float_truediv (float_sub enhanced_revenue honest_revenue)
                 (if honest_revenue > 0 then honest_revenue else 1) of
            Inl e \<Rightarrow> Inl e
          | Inr advantage \<Rightarrow>
             (case float_truediv enhanced_revenue (if \<alpha> > 0 then \<alpha> else fl 0.01) of
                Inl e \<Rightarrow> Inl e
              | Inr per_hashrate \<Rightarrow>
                 Inr \<lparr>mev_alpha = \<alpha>,
                      mev_extract_probability = extract_probability,
                      avg_mev_per_block_btc = avg_mev_per_block,
                      mev_attacker_blocks = attacker_blocks attacker_result,
                      mev_extractable_blocks = mev_blocks,
                      base_revenue_btc = attacker_revenue_btc attacker_result,
                      mev_revenue_btc = total_mev_revenue,
                      total_enhanced_revenue_btc = enhanced_revenue,
                      mev_honest_revenue_btc = honest_revenue,
                      revenue_advantage_vs_honest = advantage,
                      revenue_per_hashrate = per_hashrate\<rparr>)),
         g'))"


section \<open>cross_chain_attack\<close>

record revenue_comparison =
  single_chain_btc :: real
  multi_chain_total_before_cost_btc :: real
  multi_chain_total_after_cost_btc :: real
  coordination_overhead_percent :: real
  multiplier_effect :: real

record cross_chain_report =
  cc_alpha :: real
  cc_num_chains :: int
  cc_gamma :: real
  coordination_cost_per_chain :: real
  results_per_chain :: "SimulationResult list"
  revenue_comparison :: revenue_comparison

text \<open>
  \<open>results_per_chain\<close> holds the results themselves: \<^verbatim>\<open>to_dict\<close> only reads a result and
  its derived properties.
\<close>

text \<open>
  \<^verbatim>\<open>for i in range(num_chains)\<close>, from chain \<open>i\<close> on, with \<open>k\<close> chains left: the loop's
  variables are the list of results, the revenue summed so far and the generator.
\<close>

fun chains_loop ::
  "(int \<Rightarrow> rng) \<Rightarrow> real \<Rightarrow> real \<Rightarrow> int \<Rightarrow> int option \<Rightarrow> nat \<Rightarrow> int
     \<Rightarrow> SimulationResult list \<times> real \<times> rng \<Rightarrow> SimulationResult list \<times> real \<times> rng" where
  "chains_loop mt \<alpha> \<gamma> n seed 0 i st = st"
| "chains_loop mt \<alpha> \<gamma> n seed (Suc k) i (results, total_revenue, g) =
     (let chain_seed = (case seed of None \<Rightarrow> None | Some s \<Rightarrow> Some (s + i * 1000));
          (result, g') = simulate_selfish_mining mt \<alpha> \<gamma> n chain_seed g
      in chains_loop mt \<alpha> \<gamma> n seed k (i + 1)
           (results @ [result], float_add total_revenue (attacker_revenue_btc result), g'))"

definition cross_chain_attack ::
  "(int \<Rightarrow> rng) \<Rightarrow> real \<Rightarrow> int \<Rightarrow> real \<Rightarrow> int \<Rightarrow> int option \<Rightarrow> rng
     \<Rightarrow> (py_error + cross_chain_report) \<times> rng" where
  "cross_chain_attack mt \<alpha> num_chains \<gamma> rounds_per_chain seed g =
     (let cost_per_chain = fl 0.01;
          coordination_overhead = float_mul cost_per_chain (float_of_int (num_chains - 1));
          (results, total_revenue, g1) =
             chains_loop mt \<alpha> \<gamma> rounds_per_chain seed (nat num_chains) 0 ([], 0, g);
          effective_revenue = float_mul total_revenue (float_sub 1 coordination_overhead);
          (single_chain_result, g2) = simulate_selfish_mining mt \<alpha> \<gamma> rounds_per_chain seed g1;
          single = attacker_revenue_btc single_chain_result
      in ((case (if single > 0 then float_truediv effective_revenue single else Inr 1) of
            Inl e \<Rightarrow> Inl e
          | Inr multiplier \<Rightarrow>
             Inr \<lparr>cc_alpha = \<alpha>, cc_num_chains = num_chains, cc_gamma = \<gamma>,
                  coordination_cost_per_chain = cost_per_chain,
                  results_per_chain = results,
                  revenue_comparison =
                    \<lparr>single_chain_btc = single,
                     multi_chain_total_before_cost_btc = total_revenue,
                     multi_chain_total_after_cost_btc = effective_revenue,
                     coordination_overhead_percent = float_mul coordination_overhead 100,
                     multiplier_effect = multiplier\<rparr>\<rparr>),
         g2))"

lemma bitlen_real_bounds:
  assumes "0 < m"
  shows "(2::real) ^ nat (bitlen m - 1) \<le> of_int m" "real_of_int m + 1 \<le> 2 ^ nat (bitlen m)"
    "1 \<le> bitlen m"
proof -
  from bitlen_bounds[OF assms] have lo: "2 ^ nat (bitlen m - 1) \<le> m" and hi: "m < 2 ^ nat (bitlen m)"
    by simp_all
  from lo have "real_of_int (2 ^ nat (bitlen m - 1)) \<le> of_int m" by (simp only: of_int_le_iff)
  then show "(2::real) ^ nat (bitlen m - 1) \<le> of_int m" by simp
  from hi have "m + 1 \<le> 2 ^ nat (bitlen m)" by simp
  then have "real_of_int (m + 1) \<le> of_int (2 ^ nat (bitlen m))" by (simp only: of_int_le_iff)
  then show "real_of_int m + 1 \<le> 2 ^ nat (bitlen m)" by simp
  show "1 \<le> bitlen m" using assms bitlen_eq_zero_iff[of m] bitlen_nonneg[of m] by linarith
qed

lemma ilog2_lower:
  assumes "0 < x"
  shows "2 powi (ilog2 x) \<le> x"
proof (cases "1 \<le> x")
  case True
  then have m: "0 < \<lfloor>x\<rfloor>" by simp
  note b = bitlen_real_bounds[OF m]
  have "2 powi (ilog2 x) = (2::real) ^ nat (bitlen \<lfloor>x\<rfloor> - 1)"
    using True b(3) by (simp add: ilog2_def power_int_nonneg_exp)
  also have "\<dots> \<le> of_int \<lfloor>x\<rfloor>" by (rule b(1))
  also have "\<dots> \<le> x" by simp
  finally show ?thesis .
next
  case False
  with assms have "1 < 1 / x" by simp
  then have m: "0 < \<lceil>1 / x\<rceil> - 1" by (simp add: less_ceiling_iff)
  note b = bitlen_real_bounds[OF m]
  have "1 / x \<le> of_int \<lceil>1 / x\<rceil>" by (rule le_of_int_ceiling)
  also have "\<dots> = real_of_int (\<lceil>1 / x\<rceil> - 1) + 1" by simp
  also have "\<dots> \<le> 2 ^ nat (bitlen (\<lceil>1 / x\<rceil> - 1))" by (rule b(2))
  finally have "1 / x \<le> 2 ^ nat (bitlen (\<lceil>1 / x\<rceil> - 1))" .
  then have "1 / 2 ^ nat (bitlen (\<lceil>1 / x\<rceil> - 1)) \<le> x"
    using assms by (simp add: field_simps)
  moreover have "2 powi (ilog2 x) = 1 / (2::real) ^ nat (bitlen (\<lceil>1 / x\<rceil> - 1))"
    using False b(3) by (simp add: ilog2_def power_int_minus_divide power_int_nonneg_exp)
  ultimately show ?thesis by simp
qed

lemma ilog2_upper:
  assumes "0 < x"
  shows "x < 2 powi (ilog2 x + 1)"
proof (cases "1 \<le> x")
  case True
  then have m: "0 < \<lfloor>x\<rfloor>" by simp
  note b = bitlen_real_bounds[OF m]
  have "x < of_int \<lfloor>x\<rfloor> + 1" by simp
  also have "\<dots> \<le> 2 ^ nat (bitlen \<lfloor>x\<rfloor>)" by (rule b(2))
  also have "\<dots> = 2 powi (ilog2 x + 1)"
    using True b(3) by (simp add: ilog2_def power_int_nonneg_exp)
  finally show ?thesis .
next
  case False
  with assms have "1 < 1 / x" by simp
  then have m: "0 < \<lceil>1 / x\<rceil> - 1" by (simp add: less_ceiling_iff)
  note b = bitlen_real_bounds[OF m]
  have "(2::real) ^ nat (bitlen (\<lceil>1 / x\<rceil> - 1) - 1) \<le> real_of_int (\<lceil>1 / x\<rceil> - 1)" by (rule b(1))
  also have "\<dots> < 1 / x" using ceiling_correct[of "1 / x"] by simp
  finally have "(2::real) ^ nat (bitlen (\<lceil>1 / x\<rceil> - 1) - 1) < 1 / x" .
  then have "x < 1 / 2 ^ nat (bitlen (\<lceil>1 / x\<rceil> - 1) - 1)"
    using assms by (simp add: field_simps)
  moreover have "2 powi (ilog2 x + 1) = 1 / (2::real) ^ nat (bitlen (\<lceil>1 / x\<rceil> - 1) - 1)"
  proof -
    have "ilog2 x + 1 = - (bitlen (\<lceil>1 / x\<rceil> - 1) - 1)" using False by (simp add: ilog2_def)
    then have "(2::real) powi (ilog2 x + 1) = 1 / 2 powi (bitlen (\<lceil>1 / x\<rceil> - 1) - 1)"
      by (simp only: power_int_minus_divide)
    then show ?thesis using b(3) by (simp add: power_int_nonneg_exp)
  qed
  ultimately show ?thesis by simp
qed

lemma two_powi_less_D:
  assumes "(2::real) powi a < 2 powi b"
  shows "a < b"
proof (rule ccontr)
  assume "\<not> a < b"
  then have "b \<le> a" by simp
  then have "(2::real) powi b \<le> 2 powi a" by (rule power_int_increasing) simp
  with assms show False by simp
qed

lemma ilog2_unique:
  assumes "2 powi e \<le> x" "x < 2 powi (e + 1)"
  shows "ilog2 x = e"
proof -
  have pos: "0 < x" using assms(1) zero_less_power_int[of "2::real" e] by linarith
  have "(2::real) powi (ilog2 x) < 2 powi (e + 1)"
    using ilog2_lower[OF pos] assms(2) by linarith
  then have 1: "ilog2 x < e + 1" by (rule two_powi_less_D)
  have "(2::real) powi e < 2 powi (ilog2 x + 1)"
    using ilog2_upper[OF pos] assms(1) by linarith
  then have 2: "e < ilog2 x + 1" by (rule two_powi_less_D)
  from 1 2 show ?thesis by linarith
qed


lemma round_half_even_of_int: "round_half_even (of_int k) = k"
  by (simp add: round_half_even_def)

lemma round_half_even_error: "\<bar>of_int (round_half_even y) - y\<bar> \<le> 1 / 2"
proof -
  have "of_int \<lfloor>y\<rfloor> \<le> y" "y < of_int \<lfloor>y\<rfloor> + 1" by linarith+
  then show ?thesis by (auto simp: round_half_even_def Let_def)
qed

lemma ulp_pos: "0 < ulp x"
  by (simp add: ulp_def)

lemma float_exponent_ge: "- 1022 \<le> float_exponent x"
  by (simp add: float_exponent_def)

lemma abs_less_float_exponent:
  assumes "x \<noteq> 0"
  shows "\<bar>x\<bar> < 2 powi (float_exponent x + 1)"
proof -
  have "\<bar>x\<bar> < 2 powi (ilog2 \<bar>x\<bar> + 1)" using assms by (intro ilog2_upper) simp
  also have "\<dots> \<le> 2 powi (float_exponent x + 1)"
    by (rule power_int_increasing) (simp_all add: float_exponent_def)
  finally show ?thesis .
qed

lemma fl_exact_lt:
  assumes x: "x = of_int k * 2 powi E" and k: "\<bar>k\<bar> < 2 ^ 53" and E: "- 1074 \<le> E"
  shows "fl x = x"
proof (cases "x = 0")
  case True
  then show ?thesis by (simp add: fl_def)
next
  case False
  have "\<bar>x\<bar> = of_int \<bar>k\<bar> * 2 powi E" by (simp add: x abs_mult)
  also have "\<dots> < 2 ^ 53 * 2 powi E"
  proof -
    have "real_of_int \<bar>k\<bar> < of_int (2 ^ 53)" using k by (simp only: of_int_less_iff)
    then show ?thesis by simp
  qed
  also have "\<dots> = 2 powi (E + 53)" by (simp add: power_int_add)
  finally have "\<bar>x\<bar> < 2 powi (E + 53)" .
  moreover have "2 powi (ilog2 \<bar>x\<bar>) \<le> \<bar>x\<bar>" using False by (intro ilog2_lower) simp
  ultimately have "(2::real) powi (ilog2 \<bar>x\<bar>) < 2 powi (E + 53)" by linarith
  then have "ilog2 \<bar>x\<bar> < E + 53" by (rule two_powi_less_D)
  with E have d: "0 \<le> E - (float_exponent x - 52)" by (simp add: float_exponent_def)
  define d where "d = nat (E - (float_exponent x - 52))"
  define u where "u = ulp x"
  have u: "0 < u" unfolding u_def by (rule ulp_pos)
  have "2 powi E = 2 powi (float_exponent x - 52) * (2::real) powi (E - (float_exponent x - 52))"
    by (simp flip: power_int_add)
  also have "(2::real) powi (E - (float_exponent x - 52)) = 2 ^ d"
    using d by (simp add: d_def power_int_nonneg_exp)
  finally have E2: "2 powi E = u * 2 ^ d" by (simp add: ulp_def u_def)
  have xu: "x = of_int (k * 2 ^ d) * u" unfolding x E2 by simp
  have "x / u = of_int (k * 2 ^ d)" using u by (subst xu) simp
  then have "round_half_even (x / u) = k * 2 ^ d"
    by (simp only: round_half_even_of_int)
  then have "fl x = of_int (k * 2 ^ d) * u" using False by (simp add: fl_def u_def)
  also have "\<dots> = x" by (rule xu[symmetric])
  finally show ?thesis .
qed

lemma fl_exact:
  assumes x: "x = of_int k * 2 powi E" and k: "\<bar>k\<bar> \<le> 2 ^ 53" and E: "- 1074 \<le> E"
  shows "fl x = x"
proof (cases "\<bar>k\<bar> < 2 ^ 53")
  case True
  from x this E show ?thesis by (rule fl_exact_lt)
next
  case False
  with k have "\<bar>k\<bar> = 2 ^ 53" by simp
  then have "k = 2 ^ 53 \<or> k = - (2 ^ 53)" by linarith
  then have "x = of_int (sgn k) * 2 powi (E + 53)"
    by (auto simp: x power_int_add)
  moreover have "\<bar>sgn k\<bar> < 2 ^ 53" by (simp add: sgn_if)
  moreover have "- 1074 \<le> E + 53" using E by simp
  ultimately show ?thesis by (rule fl_exact_lt)
qed

lemma fl_zero: "fl 0 = 0"
  by (simp add: fl_def)

lemma fl_of_int:
  assumes "\<bar>k\<bar> \<le> 2 ^ 53"
  shows "fl (of_int k) = of_int k"
  by (rule fl_exact[where k = k and E = 0]) (use assms in simp_all)

lemma fl_one: "fl 1 = 1"
  using fl_of_int[of 1] by simp

lemma fl_idem: "fl (fl x) = fl x"
proof (cases "x = 0")
  case True
  then show ?thesis by (simp add: fl_def)
next
  case False
  define K where "K = round_half_even (x / ulp x)"
  have flx: "fl x = of_int K * 2 powi (float_exponent x - 52)"
    using False by (simp add: fl_def K_def ulp_def)
  have "\<bar>x / ulp x\<bar> = \<bar>x\<bar> / ulp x" using ulp_pos[of x] by simp
  also have "\<dots> < 2 powi (float_exponent x + 1) / ulp x"
    using abs_less_float_exponent[OF False] ulp_pos[of x] by (simp add: divide_strict_right_mono)
  also have "\<dots> = 2 powi ((float_exponent x + 1) - (float_exponent x - 52))"
    unfolding ulp_def by (subst power_int_diff) simp_all
  also have "\<dots> = 2 ^ 53" by simp
  finally have "\<bar>x / ulp x\<bar> < 2 ^ 53" .
  moreover have "\<bar>of_int K - x / ulp x\<bar> \<le> 1 / 2" unfolding K_def by (rule round_half_even_error)
  ultimately have "\<bar>real_of_int K\<bar> < 2 ^ 53 + 1" by linarith
  then have "real_of_int \<bar>K\<bar> < of_int (2 ^ 53 + 1)" by simp
  then have "\<bar>K\<bar> < 2 ^ 53 + 1" by (simp only: of_int_less_iff)
  then have "\<bar>K\<bar> \<le> 2 ^ 53" by simp
  moreover have "- 1074 \<le> float_exponent x - 52" using float_exponent_ge[of x] by simp
  ultimately show ?thesis using flx by (intro fl_exact)
qed


lemma round_half_even_near:
  assumes "of_int k - 1 / 2 \<le> y" "y < of_int k + 1 / 2" "even k"
  shows "round_half_even y = k"
proof (cases "of_int k \<le> y")
  case True
  with assms(2) have "\<lfloor>y\<rfloor> = k" by (intro floor_unique) simp_all
  with assms(2) show ?thesis by (simp add: round_half_even_def Let_def)
next
  case False
  with assms(1) have f: "\<lfloor>y\<rfloor> = k - 1" by (intro floor_unique) simp_all
  have "odd (k - 1)" using assms(3) by simp
  with assms(1) f show ?thesis by (simp add: round_half_even_def Let_def)
qed

lemma float_exponent_eq:
  assumes "2 powi e \<le> \<bar>x\<bar>" "\<bar>x\<bar> < 2 powi (e + 1)" "- 1022 \<le> e"
  shows "float_exponent x = e"
  using ilog2_unique[OF assms(1,2)] assms(3) by (simp add: float_exponent_def)

lemma fl_near_one:
  assumes "\<bar>d\<bar> \<le> 2 powi (- 54)"
  shows "fl (1 + d) = 1"
proof (cases "0 \<le> d")
  case True
  have d: "d \<le> 1 / 2 ^ 54" using assms by (simp add: power_int_minus_divide)
  have e: "float_exponent (1 + d) = 0"
    by (rule float_exponent_eq) (use True d in simp_all)
  then have u: "ulp (1 + d) = 1 / 2 ^ 52" by (simp add: ulp_def power_int_minus_divide)
  have "round_half_even ((1 + d) / (1 / 2 ^ 52)) = 2 ^ 52"
    by (rule round_half_even_near) (use True d in simp_all)
  then show ?thesis using True by (simp add: fl_def u)
next
  case False
  have d: "- (1 / 2 ^ 54) \<le> d" using assms by (simp add: power_int_minus_divide)
  have e: "float_exponent (1 + d) = - 1"
    by (rule float_exponent_eq) (use False d in \<open>simp_all add: power_int_minus_divide\<close>)
  then have u: "ulp (1 + d) = 1 / 2 ^ 53" by (simp add: ulp_def power_int_minus_divide)
  have "round_half_even ((1 + d) / (1 / 2 ^ 53)) = 2 ^ 53"
    by (rule round_half_even_near) (use False d in simp_all)
  moreover have "1 + d \<noteq> 0" using d by simp
  ultimately show ?thesis by (simp add: fl_def u)
qed


lemma fl_error:
  assumes "x \<noteq> 0"
  shows "\<exists>K. fl x = of_int K * ulp x \<and> \<bar>fl x - x\<bar> \<le> ulp x / 2"
proof (intro exI conjI)
  define K where "K = round_half_even (x / ulp x)"
  show flx: "fl x = of_int K * ulp x" using assms by (simp add: fl_def K_def)
  have "\<bar>of_int K - x / ulp x\<bar> \<le> 1 / 2" unfolding K_def by (rule round_half_even_error)
  then have "\<bar>of_int K - x / ulp x\<bar> * ulp x \<le> 1 / 2 * ulp x"
    using ulp_pos[of x] by (intro mult_right_mono) simp_all
  moreover have "\<bar>of_int K - x / ulp x\<bar> * ulp x = \<bar>of_int K * ulp x - x\<bar>"
  proof -
    have "\<bar>of_int K - x / ulp x\<bar> * ulp x = \<bar>(of_int K - x / ulp x) * ulp x\<bar>"
      using ulp_pos[of x] by (simp add: abs_mult)
    also have "(of_int K - x / ulp x) * ulp x = of_int K * ulp x - x"
      using ulp_pos[of x] by (simp add: field_simps)
    finally show ?thesis .
  qed
  ultimately show "\<bar>fl x - x\<bar> \<le> ulp x / 2" by (simp add: flx)
qed

lemma fl_split_sum:
  assumes pq: "p + q = 1" and q0: "0 < q" and qp: "q < p"
  shows "fl (fl p + fl q) = 1"
proof -
  from pq qp q0 have p: "1 / 2 < p" "p < 1" and q: "q < 1 / 2" by linarith+
  have "float_exponent p = - 1"
    by (rule float_exponent_eq) (use p in \<open>simp_all add: power_int_minus_divide\<close>)
  then have up: "ulp p = 2 powi (- 53)" by (simp add: ulp_def)
  from p have "p \<noteq> 0" by simp
  then obtain K where K: "fl p = of_int K * ulp p" "\<bar>fl p - p\<bar> \<le> ulp p / 2"
    using fl_error[of p] by blast
  from q0 have "q \<noteq> 0" by simp
  then obtain J where J: "fl q = of_int J * ulp q" "\<bar>fl q - q\<bar> \<le> ulp q / 2"
    using fl_error[of q] by blast
  define u where "u = ulp q"
  have u: "0 < u" unfolding u_def by (rule ulp_pos)
  have "2 powi (ilog2 \<bar>q\<bar>) \<le> \<bar>q\<bar>" using q0 by (intro ilog2_lower) simp
  with q q0 have "(2::real) powi (ilog2 \<bar>q\<bar>) < 2 powi (- 1)" by (simp add: power_int_minus_divide)
  then have "ilog2 \<bar>q\<bar> < - 1" by (rule two_powi_less_D)
  then have e: "0 \<le> - 2 - float_exponent q" by (simp add: float_exponent_def)
  define n where "n = nat (- 2 - float_exponent q)"
  have "(2::real) powi (- 54) = 2 powi (float_exponent q - 52) * 2 powi (- 2 - float_exponent q)"
    by (simp flip: power_int_add)
  also have "(2::real) powi (- 2 - float_exponent q) = 2 ^ n"
    using e by (simp add: n_def power_int_nonneg_exp)
  finally have h54: "2 powi (- 54) = u * 2 ^ n" by (simp add: u_def ulp_def)
  have "(2::real) powi (- 53) = 2 powi (- 54) * 2" by (simp add: power_int_minus_divide)
  also have "\<dots> = u * 2 ^ n * 2" by (simp only: h54)
  also have "\<dots> = u * 2 ^ Suc n" by simp
  finally have h53: "2 powi (- 53) = u * 2 ^ Suc n" .
  have "(2::real) powi (- 54) * 2 ^ 54 = 1" by (simp add: power_int_minus_divide)
  then have "u * 2 ^ n * 2 ^ 54 = 1" unfolding h54 .
  then have h1: "1 = u * 2 ^ (n + 54)" by (simp only: power_add mult.assoc)
  define D where "D = K * 2 ^ Suc n + J - 2 ^ (n + 54)"
  have "fl p + fl q - 1 = of_int K * (u * 2 ^ Suc n) + of_int J * u - u * 2 ^ (n + 54)"
    unfolding K(1) J(1) up h53 u_def[symmetric] using h1 by simp
  also have "\<dots> = of_int D * u" by (simp add: D_def algebra_simps)
  finally have sum: "fl p + fl q = 1 + of_int D * u" by simp
  have "\<bar>of_int D * u\<bar> = \<bar>(fl p - p) + (fl q - q)\<bar>" using sum pq by simp
  also have "\<dots> \<le> \<bar>fl p - p\<bar> + \<bar>fl q - q\<bar>" by (rule abs_triangle_ineq)
  also have "\<dots> \<le> 2 powi (- 53) / 2 + u / 2" using K(2) J(2) by (simp add: up u_def)
  also have "\<dots> = (2 ^ n + 1 / 2) * u" unfolding h53 by (simp add: algebra_simps)
  finally have "\<bar>of_int D\<bar> * u \<le> (2 ^ n + 1 / 2) * u" using u by (simp add: abs_mult)
  then have "\<bar>real_of_int D\<bar> \<le> 2 ^ n + 1 / 2" using u by simp
  then have "real_of_int \<bar>D\<bar> < of_int (2 ^ n + 1)" by simp
  then have "\<bar>D\<bar> < 2 ^ n + 1" by (simp only: of_int_less_iff)
  then have "\<bar>D\<bar> \<le> 2 ^ n" by simp
  then have "real_of_int \<bar>D\<bar> \<le> of_int (2 ^ n)" by (simp only: of_int_le_iff)
  then have "\<bar>real_of_int D\<bar> * u \<le> 2 ^ n * u" using u by simp
  then have "\<bar>of_int D * u\<bar> \<le> u * 2 ^ n" using u by (simp add: abs_mult mult.commute)
  then have "\<bar>of_int D * u\<bar> \<le> 2 powi (- 54)" unfolding h54 .
  then show ?thesis unfolding sum by (rule fl_near_one)
qed

lemma fl_half: "fl (1 / 2) = 1 / 2"
  by (rule fl_exact[where k = 1 and E = "- 1"]) (simp_all add: power_int_minus_divide)

lemma fl_ratio_sum:
  fixes a h :: int
  assumes "0 \<le> a" "0 \<le> h" "0 < a + h"
  shows "fl (fl (of_int a / of_int (a + h)) + fl (of_int h / of_int (a + h))) = 1"
proof -
  define p q :: real where "p = of_int a / of_int (a + h)" and "q = of_int h / of_int (a + h)"
  have pq: "p + q = 1" using assms(3) by (simp add: p_def q_def flip: add_divide_distrib)
  have p0: "0 \<le> p" and q0: "0 \<le> q" using assms by (simp_all add: p_def q_def)
  consider "q = 0" | "p = 0" | "p = q" | "0 < q" "q < p" | "0 < p" "p < q"
    using p0 q0 by linarith
  then have "fl (fl p + fl q) = 1"
  proof cases
    case 1
    with pq show ?thesis by (simp add: fl_zero fl_one)
  next
    case 2
    with pq show ?thesis by (simp add: fl_zero fl_one)
  next
    case 3
    with pq have pq2: "p = 1 / 2" "q = 1 / 2" by simp_all
    have "fl (fl (1 / 2) + fl (1 / 2)) = 1" by (simp add: fl_half fl_one)
    then show ?thesis by (simp only: pq2)
  next
    case 4
    with pq show ?thesis by (intro fl_split_sum)
  next
    case 5
    with pq have "fl (fl q + fl p) = 1" by (intro fl_split_sum) simp_all
    then show ?thesis by (simp add: add.commute)
  qed
  then show ?thesis by (simp only: p_def q_def)
qed


section \<open>The simulations\<close>

lemma honest_loop_counts:
  "honest_loop \<alpha> k (ab, hb, g) =
     (ab + int (length (filter (\<lambda>d. d < \<alpha>) (stake k g))),
      hb + int (length (filter (\<lambda>d. \<not> d < \<alpha>) (stake k g))),
      sdrop k g)"
  by (induction k arbitrary: ab hb g) (simp_all add: random_random_def)

lemma selfish_round_invariant:
  assumes "selfish_round \<alpha> \<gamma> (ab, hb, lead, g) = (ab', hb', lead', g')"
    and "0 \<le> ab" "0 \<le> hb" "0 \<le> lead"
  shows "0 \<le> ab'" "0 \<le> hb'" "0 \<le> lead'" "ab' + hb' + lead' \<le> ab + hb + lead + 1"
    "g' = sdrop 1 g \<or> g' = sdrop 2 g"
  using assms
  by (auto simp: selfish_round_def random_random_def numeral_2_eq_2 split: if_splits)

lemma selfish_loop_invariant:
  assumes "selfish_loop \<alpha> \<gamma> k (ab, hb, lead, g) = (ab', hb', lead', g')"
    and "0 \<le> ab" "0 \<le> hb" "0 \<le> lead"
  shows "0 \<le> ab' \<and> 0 \<le> hb' \<and> 0 \<le> lead' \<and> ab' + hb' + lead' \<le> ab + hb + lead + int k
    \<and> (\<exists>j. k \<le> j \<and> j \<le> 2 * k \<and> g' = sdrop j g)"
  using assms
proof (induction k arbitrary: ab hb lead g)
  case 0
  then show ?case by simp
next
  case (Suc k)
  obtain ab1 hb1 lead1 g1 where r: "selfish_round \<alpha> \<gamma> (ab, hb, lead, g) = (ab1, hb1, lead1, g1)"
    by (metis prod_cases4)
  note inv = selfish_round_invariant[OF r Suc.prems(2-4)]
  from Suc.prems(1) r have "selfish_loop \<alpha> \<gamma> k (ab1, hb1, lead1, g1) = (ab', hb', lead', g')"
    by simp
  from Suc.IH[OF this inv(1-3)] obtain j where
    ih: "0 \<le> ab'" "0 \<le> hb'" "0 \<le> lead'" "ab' + hb' + lead' \<le> ab1 + hb1 + lead1 + int k"
    and j: "k \<le> j" "j \<le> 2 * k" "g' = sdrop j g1"
    by blast
  from inv(5) have "\<exists>i. Suc k \<le> i \<and> i \<le> 2 * Suc k \<and> g' = sdrop i g"
  proof
    assume "g1 = sdrop 1 g"
    with j have "g' = sdrop (1 + j) g" by (simp only: sdrop_add)
    with j show ?thesis by (intro exI[of _ "1 + j"]) simp
  next
    assume "g1 = sdrop 2 g"
    with j have "g' = sdrop (2 + j) g" by (simp only: sdrop_add)
    with j show ?thesis by (intro exI[of _ "2 + j"]) simp
  qed
  with ih inv(4) show ?case by simp
qed

lemma selfish_loop_refines:
  "\<exists>g'. selfish_loop \<alpha> \<gamma> k (int a, int h, int l, g) =
     (int (fst (spec_rounds \<alpha> \<gamma> k (a, h, l) g)),
      int (fst (snd (spec_rounds \<alpha> \<gamma> k (a, h, l) g))),
      int (snd (snd (spec_rounds \<alpha> \<gamma> k (a, h, l) g))), g')"
proof (induction k arbitrary: a h l g)
  case 0
  show ?case by simp
next
  case (Suc k)
  show ?case
  proof (cases "shd g < \<alpha>")
    case True
    then have "selfish_round \<alpha> \<gamma> (int a, int h, int l, g) = (int a, int h, int (l + 1), stl g)"
      by (simp add: selfish_round_def random_random_def)
    with True Suc.IH[of a h "l + 1" "stl g"] show ?thesis by simp
  next
    case False
    consider "l = 0" | "l = 1" "shd (stl g) < \<gamma>" | "l = 1" "\<not> shd (stl g) < \<gamma>" | "2 \<le> l"
      by linarith
    then show ?thesis
    proof cases
      case 1
      with False have "selfish_round \<alpha> \<gamma> (int a, int h, int l, g) = (int a, int (h + 1), int l, stl g)"
        by (simp add: selfish_round_def random_random_def)
      with False 1 Suc.IH[of a "h + 1" l "stl g"] show ?thesis by simp
    next
      case 2
      with False have "selfish_round \<alpha> \<gamma> (int a, int h, int l, g) = (int (a + 2), int h, int 0, stl (stl g))"
        by (simp add: selfish_round_def random_random_def)
      with False 2 Suc.IH[of "a + 2" h 0 "stl (stl g)"] show ?thesis by simp
    next
      case 3
      with False have "selfish_round \<alpha> \<gamma> (int a, int h, int l, g) = (int a, int (h + 2), int 0, stl (stl g))"
        by (simp add: selfish_round_def random_random_def)
      with False 3 Suc.IH[of a "h + 2" 0 "stl (stl g)"] show ?thesis by simp
    next
      case 4
      with False have "selfish_round \<alpha> \<gamma> (int a, int h, int l, g) = (int (a + 1), int h, int (l - 1), stl g)"
        by (simp add: selfish_round_def random_random_def of_nat_diff)
      with False 4 Suc.IH[of "a + 1" h "l - 1" "stl g"] show ?thesis by simp
    qed
  qed
qed

lemma simulate_selfish_mining_fields:
  "alpha (fst (simulate_selfish_mining mt \<alpha> \<gamma> n seed g)) = \<alpha>"
  "gamma (fst (simulate_selfish_mining mt \<alpha> \<gamma> n seed g)) = \<gamma>"
  "rounds (fst (simulate_selfish_mining mt \<alpha> \<gamma> n seed g)) = n"
  by (simp_all add: simulate_selfish_mining_def new_SimulationResult_def Let_def split: prod.splits)

lemma simulate_selfish_mining_run:
  "\<exists>ab hb j. simulate_selfish_mining mt \<alpha> \<gamma> n seed g =
       (new_SimulationResult \<alpha> \<gamma> n ab hb, sdrop j (reseed mt seed g))
     \<and> 0 \<le> ab \<and> 0 \<le> hb \<and> ab + hb \<le> int (nat n) \<and> nat n \<le> j \<and> j \<le> 2 * nat n"
proof -
  obtain ab hb lead g' where
    l: "selfish_loop \<alpha> \<gamma> (nat n) (0, 0, 0, reseed mt seed g) = (ab, hb, lead, g')"
    by (metis prod_cases4)
  from selfish_loop_invariant[OF l] obtain j where
    inv: "0 \<le> ab" "0 \<le> hb" "0 \<le> lead" "ab + hb + lead \<le> int (nat n)"
    and j: "nat n \<le> j" "j \<le> 2 * nat n" "g' = sdrop j (reseed mt seed g)"
    by auto
  have "simulate_selfish_mining mt \<alpha> \<gamma> n seed g =
      (new_SimulationResult \<alpha> \<gamma> n (ab + lead) hb, sdrop j (reseed mt seed g))"
    using l inv(3) j(3) by (simp add: simulate_selfish_mining_def Let_def)
  with inv j show ?thesis by (intro exI[of _ "ab + lead"] exI[of _ hb] exI[of _ j]) simp
qed

lemma simulate_selfish_mining_seeded:
  "simulate_selfish_mining mt \<alpha> \<gamma> n (Some s) g = simulate_selfish_mining mt \<alpha> \<gamma> n (Some s) g'"
  by (simp add: simulate_selfish_mining_def reseed_def)

lemma simulate_selfish_mining_unseeded:
  "simulate_selfish_mining mt \<alpha> \<gamma> n None g = simulate_selfish_mining mt' \<alpha> \<gamma> n None g"
  by (simp add: simulate_selfish_mining_def reseed_def)


section \<open>Claims about the simulations\<close>

text \<open>
  C1. For \<open>rounds \<ge> 0\<close> the block counts returned by \<open>simulate_selfish_mining\<close> are those of
  the three-way private-lead state machine of the specification, run for \<open>rounds\<close> rounds on
  the draws of the generator (reseeded when a seed is given) and settled by crediting the
  remaining lead to the attacker.
\<close>

theorem selfish_mining_is_state_machine:
  assumes "0 \<le> n"
  shows "attacker_blocks (fst (simulate_selfish_mining mt \<alpha> \<gamma> n seed g)) =
           int (fst (spec_selfish_blocks \<alpha> \<gamma> (nat n) (reseed mt seed g)))
       \<and> honest_blocks (fst (simulate_selfish_mining mt \<alpha> \<gamma> n seed g)) =
           int (snd (spec_selfish_blocks \<alpha> \<gamma> (nat n) (reseed mt seed g)))"
proof -
  obtain g' where "selfish_loop \<alpha> \<gamma> (nat n) (int 0, int 0, int 0, reseed mt seed g) =
     (int (fst (spec_rounds \<alpha> \<gamma> (nat n) (0, 0, 0) (reseed mt seed g))),
      int (fst (snd (spec_rounds \<alpha> \<gamma> (nat n) (0, 0, 0) (reseed mt seed g)))),
      int (snd (snd (spec_rounds \<alpha> \<gamma> (nat n) (0, 0, 0) (reseed mt seed g)))), g')"
    using selfish_loop_refines[of \<alpha> \<gamma> "nat n" 0 0 0 "reseed mt seed g"] by blast
  then show ?thesis
    by (simp add: simulate_selfish_mining_def spec_selfish_blocks_def new_SimulationResult_def
        Let_def split: prod.splits)
qed

theorem selfish_mining_is_state_machine_witness:
  "(0::int) \<le> 3
   \<and> attacker_blocks (fst (simulate_selfish_mining (\<lambda>s. sconst 0) 0.3 0.5 3 None
         (0.2 ## 0.9 ## 0.4 ## 0.1 ## sconst 0.5))) = 3
   \<and> honest_blocks (fst (simulate_selfish_mining (\<lambda>s. sconst 0) 0.3 0.5 3 None
         (0.2 ## 0.9 ## 0.4 ## 0.1 ## sconst 0.5))) = 0"
  using selfish_mining_is_state_machine[of 3 "\<lambda>s. sconst 0" "0.3" "0.5" None
      "0.2 ## 0.9 ## 0.4 ## 0.1 ## sconst 0.5"]
  by (simp add: spec_selfish_blocks_def reseed_def eval_nat_numeral)

text \<open>
  C3. For \<open>rounds \<ge> 0\<close>, and every \<open>alpha\<close> and \<open>gamma\<close>, the result of
  \<open>simulate_selfish_mining\<close>, settlement included, has non-negative block counts whose sum
  is at most \<open>rounds\<close>.
\<close>

theorem selfish_mining_blocks_bounded:
  assumes "0 \<le> n"
  shows "0 \<le> attacker_blocks (fst (simulate_selfish_mining mt \<alpha> \<gamma> n seed g))
       \<and> 0 \<le> honest_blocks (fst (simulate_selfish_mining mt \<alpha> \<gamma> n seed g))
       \<and> attacker_blocks (fst (simulate_selfish_mining mt \<alpha> \<gamma> n seed g))
           + honest_blocks (fst (simulate_selfish_mining mt \<alpha> \<gamma> n seed g)) \<le> n"
proof -
  from simulate_selfish_mining_run[of mt \<alpha> \<gamma> n seed g] obtain ab hb j where
    "simulate_selfish_mining mt \<alpha> \<gamma> n seed g =
       (new_SimulationResult \<alpha> \<gamma> n ab hb, sdrop j (reseed mt seed g))"
    "0 \<le> ab" "0 \<le> hb" "ab + hb \<le> int (nat n)"
    by blast
  with assms show ?thesis by (simp add: new_SimulationResult_def)
qed

theorem selfish_mining_blocks_bounded_witness:
  "(0::int) \<le> 3
   \<and> 0 \<le> attacker_blocks (fst (simulate_selfish_mining (\<lambda>s. sconst 0) 0.3 0.5 3 (Some 1) (sconst 0)))
   \<and> 0 \<le> honest_blocks (fst (simulate_selfish_mining (\<lambda>s. sconst 0) 0.3 0.5 3 (Some 1) (sconst 0)))
   \<and> attacker_blocks (fst (simulate_selfish_mining (\<lambda>s. sconst 0) 0.3 0.5 3 (Some 1) (sconst 0)))
       + honest_blocks (fst (simulate_selfish_mining (\<lambda>s. sconst 0) 0.3 0.5 3 (Some 1) (sconst 0))) \<le> 3"
  using selfish_mining_blocks_bounded[of 3 "\<lambda>s. sconst 0" "0.3" "0.5" "Some 1" "sconst 0"]
  by simp

text \<open>
  C4. For \<open>0 < alpha < 1\<close> and \<open>rounds \<ge> 0\<close>, \<open>simulate_all_honest\<close> takes the next
  \<open>rounds\<close> draws of the generator and counts each one for exactly one side: for the
  attacker when the draw is below \<open>alpha\<close>, for the honest pool otherwise. The two counts
  add up to \<open>rounds\<close> and the result's \<open>gamma\<close> is 0.
\<close>

theorem all_honest_attribution:
  assumes "0 < \<alpha>" "\<alpha> < 1" "0 \<le> n"
  shows "attacker_blocks (fst (simulate_all_honest mt \<alpha> n seed g)) =
           int (length (filter (\<lambda>d. d < \<alpha>) (stake (nat n) (reseed mt seed g))))
       \<and> honest_blocks (fst (simulate_all_honest mt \<alpha> n seed g)) =
           int (length (filter (\<lambda>d. \<not> d < \<alpha>) (stake (nat n) (reseed mt seed g))))
       \<and> attacker_blocks (fst (simulate_all_honest mt \<alpha> n seed g))
           + honest_blocks (fst (simulate_all_honest mt \<alpha> n seed g)) = n
       \<and> gamma (fst (simulate_all_honest mt \<alpha> n seed g)) = 0
       \<and> snd (simulate_all_honest mt \<alpha> n seed g) = sdrop (nat n) (reseed mt seed g)"
proof -
  have "length (filter (\<lambda>d. d < \<alpha>) (stake (nat n) (reseed mt seed g)))
      + length (filter (\<lambda>d. \<not> d < \<alpha>) (stake (nat n) (reseed mt seed g))) = nat n"
    by (simp add: sum_length_filter_compl)
  then have "int (length (filter (\<lambda>d. d < \<alpha>) (stake (nat n) (reseed mt seed g))))
      + int (length (filter (\<lambda>d. \<not> d < \<alpha>) (stake (nat n) (reseed mt seed g)))) = n"
    using assms(3) by linarith
  then show ?thesis
    by (simp add: simulate_all_honest_def honest_loop_counts new_SimulationResult_def Let_def)
qed

theorem all_honest_attribution_witness:
  "(0::real) < 0.3 \<and> (0.3::real) < 1 \<and> (0::int) \<le> 3
   \<and> attacker_blocks (fst (simulate_all_honest (\<lambda>s. sconst 0) 0.3 3 None
         (0.2 ## 0.9 ## 0.4 ## sconst 0.5))) = 1
   \<and> honest_blocks (fst (simulate_all_honest (\<lambda>s. sconst 0) 0.3 3 None
         (0.2 ## 0.9 ## 0.4 ## sconst 0.5))) = 2
   \<and> gamma (fst (simulate_all_honest (\<lambda>s. sconst 0) 0.3 3 None
         (0.2 ## 0.9 ## 0.4 ## sconst 0.5))) = 0"
  using all_honest_attribution[of "0.3" 3 "\<lambda>s. sconst 0" None "0.2 ## 0.9 ## 0.4 ## sconst 0.5"]
  by (simp add: reseed_def eval_nat_numeral)

text \<open>
  C5. \<open>simulate_selfish_mining\<close> has no failing path: for every \<open>rounds \<ge> 0\<close> and all real
  \<open>alpha\<close> and \<open>gamma\<close>, the degenerate ones included, the run ends after between
  \<open>rounds\<close> and \<open>2 * rounds\<close> draws and returns a result that carries \<open>alpha\<close>, \<open>gamma\<close> and
  \<open>rounds\<close> as they were given, with block counts that are non-negative integers.
\<close>

theorem selfish_mining_returns:
  assumes "0 \<le> n"
  shows "\<exists>ab hb j. simulate_selfish_mining mt \<alpha> \<gamma> n seed g =
            (\<lparr>alpha = \<alpha>, gamma = \<gamma>, rounds = n, attacker_blocks = ab, honest_blocks = hb,
              block_reward = 6.25, avg_tx_fee_per_block = 0.5\<rparr>,
             sdrop j (reseed mt seed g))
          \<and> 0 \<le> ab \<and> 0 \<le> hb \<and> nat n \<le> j \<and> j \<le> 2 * nat n"
  using simulate_selfish_mining_run[of mt \<alpha> \<gamma> n seed g]
  unfolding new_SimulationResult_def by blast

theorem selfish_mining_returns_witness:
  "(0::int) \<le> 2
   \<and> (\<exists>ab hb j. simulate_selfish_mining (\<lambda>s. sconst 0) 1 (- 3) 2 None (sconst 0.5) =
            (\<lparr>alpha = 1, gamma = - 3, rounds = 2, attacker_blocks = ab, honest_blocks = hb,
              block_reward = 6.25, avg_tx_fee_per_block = 0.5\<rparr>,
             sdrop j (reseed (\<lambda>s. sconst 0) None (sconst 0.5)))
          \<and> 0 \<le> ab \<and> 0 \<le> hb \<and> nat 2 \<le> j \<and> j \<le> 2 * nat 2)"
  using selfish_mining_returns[of 2 "\<lambda>s. sconst 0" 1 "- 3" None "sconst 0.5"]
  by simp


text \<open>
  C7. \<open>simulate_selfish_with_defense\<close> runs the state machine at \<open>gamma_attack\<close> with the
  given seed. With the defense disabled both elements of the pair are that one result, and
  no second run is made. With the defense enabled and a seed \<open>s\<close> given, the second element
  is the run at \<open>gamma_defense\<close> with the seed \<open>s + 1\<close>, whatever state the first run left
  the generator in.
\<close>

theorem with_defense_runs:
  "simulate_selfish_with_defense mt \<alpha> gamma_attack gamma_defense n False seed g =
     ((fst (simulate_selfish_mining mt \<alpha> gamma_attack n seed g),
       fst (simulate_selfish_mining mt \<alpha> gamma_attack n seed g)),
      snd (simulate_selfish_mining mt \<alpha> gamma_attack n seed g))
   \<and> simulate_selfish_with_defense mt \<alpha> gamma_attack gamma_defense n True (Some s) g =
     ((fst (simulate_selfish_mining mt \<alpha> gamma_attack n (Some s) g),
       fst (simulate_selfish_mining mt \<alpha> gamma_defense n (Some (s + 1)) g')),
      snd (simulate_selfish_mining mt \<alpha> gamma_defense n (Some (s + 1)) g'))"
proof -
  have "simulate_selfish_mining mt \<alpha> gamma_defense n (Some (s + 1))
          (snd (simulate_selfish_mining mt \<alpha> gamma_attack n (Some s) g)) =
        simulate_selfish_mining mt \<alpha> gamma_defense n (Some (s + 1)) g'"
    by (rule simulate_selfish_mining_seeded)
  then show ?thesis
    by (simp add: simulate_selfish_with_defense_def Let_def case_prod_beta)
qed

theorem with_defense_runs_witness:
  "simulate_selfish_with_defense (\<lambda>s. sconst (if even s then 0.1 else 0.9)) 0.5 0.9 0.5 2 False
       (Some 7) (sconst 0) =
     ((new_SimulationResult 0.5 0.9 2 0 2, new_SimulationResult 0.5 0.9 2 0 2), sconst 0.9)
   \<and> simulate_selfish_with_defense (\<lambda>s. sconst (if even s then 0.1 else 0.9)) 0.5 0.9 0.5 2 True
       (Some 7) (sconst 0) =
     ((new_SimulationResult 0.5 0.9 2 0 2, new_SimulationResult 0.5 0.5 2 2 0), sconst 0.1)"
  using with_defense_runs[of "\<lambda>s. sconst (if even s then 0.1 else 0.9)" "0.5" "0.9" "0.5" 2
      "Some 7" "sconst 0" 7 "sconst 0"]
  by (simp add: simulate_selfish_mining_def selfish_round_def random_random_def reseed_def
      eval_nat_numeral)

text \<open>
  C10. With the defense enabled and no seed, the defended run is called without a seed
  too. The seeding function is never consulted; the first run consumes the next \<open>k1\<close>
  draws of the ambient generator; the defended run starts in exactly the state the first
  run left the generator in and consumes the \<open>k2\<close> draws that follow.
\<close>

theorem with_defense_unseeded:
  "simulate_selfish_with_defense mt \<alpha> gamma_attack gamma_defense n True None g =
     ((fst (simulate_selfish_mining mt' \<alpha> gamma_attack n None g),
       fst (simulate_selfish_mining mt' \<alpha> gamma_defense n None
              (snd (simulate_selfish_mining mt' \<alpha> gamma_attack n None g)))),
      snd (simulate_selfish_mining mt' \<alpha> gamma_defense n None
              (snd (simulate_selfish_mining mt' \<alpha> gamma_attack n None g))))
   \<and> (\<exists>k1 k2. nat n \<le> k1 \<and> k1 \<le> 2 * nat n \<and> nat n \<le> k2 \<and> k2 \<le> 2 * nat n
        \<and> snd (simulate_selfish_mining mt' \<alpha> gamma_attack n None g) = sdrop k1 g
        \<and> snd (simulate_selfish_mining mt' \<alpha> gamma_defense n None
                 (snd (simulate_selfish_mining mt' \<alpha> gamma_attack n None g))) =
            sdrop (k1 + k2) g)"
proof
  have "simulate_selfish_with_defense mt \<alpha> gamma_attack gamma_defense n True None g =
     ((fst (simulate_selfish_mining mt \<alpha> gamma_attack n None g),
       fst (simulate_selfish_mining mt \<alpha> gamma_defense n None
              (snd (simulate_selfish_mining mt \<alpha> gamma_attack n None g)))),
      snd (simulate_selfish_mining mt \<alpha> gamma_defense n None
              (snd (simulate_selfish_mining mt \<alpha> gamma_attack n None g))))"
    by (simp add: simulate_selfish_with_defense_def case_prod_beta)
  then show "simulate_selfish_with_defense mt \<alpha> gamma_attack gamma_defense n True None g =
     ((fst (simulate_selfish_mining mt' \<alpha> gamma_attack n None g),
       fst (simulate_selfish_mining mt' \<alpha> gamma_defense n None
              (snd (simulate_selfish_mining mt' \<alpha> gamma_attack n None g)))),
      snd (simulate_selfish_mining mt' \<alpha> gamma_defense n None
              (snd (simulate_selfish_mining mt' \<alpha> gamma_attack n None g))))"
    by (simp only: simulate_selfish_mining_unseeded[of mt _ _ _ _ mt'])
next
  from simulate_selfish_mining_run[of mt' \<alpha> gamma_attack n None g] obtain ab1 hb1 k1 where
    r1: "simulate_selfish_mining mt' \<alpha> gamma_attack n None g =
           (new_SimulationResult \<alpha> gamma_attack n ab1 hb1, sdrop k1 g)"
    and k1: "nat n \<le> k1" "k1 \<le> 2 * nat n"
    by (auto simp: reseed_def)
  from simulate_selfish_mining_run[of mt' \<alpha> gamma_defense n None "sdrop k1 g"] obtain ab2 hb2 k2 where
    r2: "simulate_selfish_mining mt' \<alpha> gamma_defense n None (sdrop k1 g) =
           (new_SimulationResult \<alpha> gamma_defense n ab2 hb2, sdrop (k1 + k2) g)"
    and k2: "nat n \<le> k2" "k2 \<le> 2 * nat n"
    by (auto simp: reseed_def sdrop_add)
  have "snd (simulate_selfish_mining mt' \<alpha> gamma_attack n None g) = sdrop k1 g"
    "snd (simulate_selfish_mining mt' \<alpha> gamma_defense n None
            (snd (simulate_selfish_mining mt' \<alpha> gamma_attack n None g))) = sdrop (k1 + k2) g"
    by (simp_all add: r1 r2)
  with k1 k2 show "\<exists>k1 k2. nat n \<le> k1 \<and> k1 \<le> 2 * nat n \<and> nat n \<le> k2 \<and> k2 \<le> 2 * nat n
        \<and> snd (simulate_selfish_mining mt' \<alpha> gamma_attack n None g) = sdrop k1 g
        \<and> snd (simulate_selfish_mining mt' \<alpha> gamma_defense n None
                 (snd (simulate_selfish_mining mt' \<alpha> gamma_attack n None g))) =
            sdrop (k1 + k2) g"
    by blast
qed

text \<open>
  The first run below forks in its second round and so takes three draws for two rounds;
  the defended run starts at the fourth draw.
\<close>

theorem with_defense_unseeded_witness:
  "simulate_selfish_with_defense (\<lambda>s. sconst 0) (1 / 2) (19 / 20) (1 / 2) 2 True None
       (1 / 10 ## 3 / 5 ## 9 / 10 ## 1 / 10 ## 1 / 10 ## sconst (1 / 2)) =
     ((new_SimulationResult (1 / 2) (19 / 20) 2 2 0, new_SimulationResult (1 / 2) (1 / 2) 2 2 0),
      sconst (1 / 2))
   \<and> snd (simulate_selfish_mining (\<lambda>s. sconst 1) (1 / 2) (19 / 20) 2 None
            (1 / 10 ## 3 / 5 ## 9 / 10 ## 1 / 10 ## 1 / 10 ## sconst (1 / 2))) =
       sdrop 3 (1 / 10 ## 3 / 5 ## 9 / 10 ## 1 / 10 ## 1 / 10 ## sconst (1 / 2))"
  using with_defense_unseeded[of "\<lambda>s. sconst 0" "1 / 2" "19 / 20" "1 / 2" 2
      "1 / 10 ## 3 / 5 ## 9 / 10 ## 1 / 10 ## 1 / 10 ## sconst (1 / 2)" "\<lambda>s. sconst 1"]
  by (simp add: simulate_selfish_mining_def selfish_round_def random_random_def reseed_def
      eval_nat_numeral)


section \<open>Claims about the derived ratios\<close>

lemma fl_positive_literals: "fl (27 / 4) = 27 / 4" "0 < fl 0.01"
  by code_simp+

text \<open>
  The relative rewards of a result whose block counts are not both non-negative need not
  add up to 1 in floating point: with 7 and - 4 blocks the sum is the float above 1.
\<close>

lemma relative_rewards_negative_count:
  "float_add (fl (7 / 3)) (fl (- 4 / 3)) = 1 + 1 / 2 ^ 52"
  by code_simp

text \<open>
  C2. \<open>total_blocks\<close> is the sum of the two block counts. For a result with non-negative
  block counts and \<open>total_blocks > 0\<close> both relative rewards are computed without error and
  their floating-point sum is exactly 1. When \<open>total_blocks = 0\<close>, as for every run with
  \<open>rounds = 0\<close>, both relative rewards are the number 0: no division takes place.
\<close>

theorem result_conservation:
  "total_blocks r = attacker_blocks r + honest_blocks r
   \<and> (0 \<le> attacker_blocks r \<and> 0 \<le> honest_blocks r \<and> 0 < total_blocks r \<longrightarrow>
        (\<exists>x y. attacker_relative_reward r = Inr x \<and> honest_relative_reward r = Inr y
            \<and> float_add x y = 1))
   \<and> (total_blocks r = 0 \<longrightarrow>
        attacker_relative_reward r = Inr 0 \<and> honest_relative_reward r = Inr 0)
   \<and> total_blocks (fst (simulate_selfish_mining mt \<alpha> \<gamma> 0 seed g)) = 0
   \<and> total_blocks (fst (simulate_all_honest mt \<alpha> 0 seed g)) = 0"
proof (intro conjI impI)
  show "total_blocks r = attacker_blocks r + honest_blocks r"
    by (simp add: total_blocks_def)
next
  assume a: "0 \<le> attacker_blocks r \<and> 0 \<le> honest_blocks r \<and> 0 < total_blocks r"
  then have "fl (fl (of_int (attacker_blocks r) / of_int (attacker_blocks r + honest_blocks r))
      + fl (of_int (honest_blocks r) / of_int (attacker_blocks r + honest_blocks r))) = 1"
    by (intro fl_ratio_sum) (simp_all add: total_blocks_def)
  with a show "\<exists>x y. attacker_relative_reward r = Inr x \<and> honest_relative_reward r = Inr y
      \<and> float_add x y = 1"
    by (simp add: attacker_relative_reward_def honest_relative_reward_def int_truediv_def
        float_add_def total_blocks_def)
next
  assume "total_blocks r = 0"
  then show "attacker_relative_reward r = Inr 0" "honest_relative_reward r = Inr 0"
    by (simp_all add: attacker_relative_reward_def honest_relative_reward_def)
next
  show "total_blocks (fst (simulate_selfish_mining mt \<alpha> \<gamma> 0 seed g)) = 0"
    by (simp add: simulate_selfish_mining_def total_blocks_def new_SimulationResult_def)
next
  show "total_blocks (fst (simulate_all_honest mt \<alpha> 0 seed g)) = 0"
    by (simp add: simulate_all_honest_def total_blocks_def new_SimulationResult_def)
qed

theorem result_conservation_witness:
  "total_blocks (new_SimulationResult 0.25 0.9 3 1 2) = 3
   \<and> (\<exists>x y. attacker_relative_reward (new_SimulationResult 0.25 0.9 3 1 2) = Inr x
          \<and> honest_relative_reward (new_SimulationResult 0.25 0.9 3 1 2) = Inr y
          \<and> float_add x y = 1)
   \<and> attacker_relative_reward (new_SimulationResult 0.25 0.9 0 0 0) = Inr 0
   \<and> honest_relative_reward (new_SimulationResult 0.25 0.9 0 0 0) = Inr 0"
  using result_conservation[of "new_SimulationResult 0.25 0.9 3 1 2"]
    result_conservation[of "new_SimulationResult 0.25 0.9 0 0 0"]
  by (simp add: new_SimulationResult_def total_blocks_def)

text \<open>
  C8. \<open>efficiency_advantage\<close> is the relative reward of the attacker divided by \<open>alpha\<close>
  when \<open>alpha > 0\<close> and the number 0 when \<open>alpha \<le> 0\<close>. \<open>mev_transaction_ordering\<close>
  returns its report: the enhanced revenue is the attacker's revenue of the selfish-mining
  run plus the MEV revenue of the extractable blocks, the honest revenue is that of the same
  run, and \<open>revenue_advantage_vs_honest\<close> is the enhanced revenue minus the honest revenue,
  divided by the honest revenue when that is positive and by 1 otherwise. Neither function
  raises \<open>ZeroDivisionError\<close>.
\<close>

theorem derived_ratios_recover:
  "(\<exists>x. attacker_relative_reward r = Inr x
        \<and> (0 < alpha r \<longrightarrow> efficiency_advantage r = Inr (fl (x / alpha r)))
        \<and> (alpha r \<le> 0 \<longrightarrow> efficiency_advantage r = Inr 0))
   \<and> (\<exists>rep. mev_transaction_ordering mt \<alpha> extract_probability avg_mev_per_block \<gamma> n seed g
             = (Inr rep, snd (simulate_selfish_mining mt \<alpha> \<gamma> n seed g))
        \<and> mev_attacker_blocks rep =
             attacker_blocks (fst (simulate_selfish_mining mt \<alpha> \<gamma> n seed g))
        \<and> base_revenue_btc rep =
             attacker_revenue_btc (fst (simulate_selfish_mining mt \<alpha> \<gamma> n seed g))
        \<and> mev_extractable_blocks rep =
             int_of_float (float_mul (float_of_int (mev_attacker_blocks rep)) extract_probability)
        \<and> mev_revenue_btc rep =
             float_mul (float_of_int (mev_extractable_blocks rep)) avg_mev_per_block
        \<and> total_enhanced_revenue_btc rep =
             float_add (base_revenue_btc rep) (mev_revenue_btc rep)
        \<and> mev_honest_revenue_btc rep =
             honest_revenue_btc (fst (simulate_selfish_mining mt \<alpha> \<gamma> n seed g))
        \<and> (0 < mev_honest_revenue_btc rep \<longrightarrow>
             revenue_advantage_vs_honest rep =
               fl (float_sub (total_enhanced_revenue_btc rep) (mev_honest_revenue_btc rep)
                     / mev_honest_revenue_btc rep))
        \<and> (mev_honest_revenue_btc rep \<le> 0 \<longrightarrow>
             revenue_advantage_vs_honest rep =
               fl (float_sub (total_enhanced_revenue_btc rep) (mev_honest_revenue_btc rep) / 1)))"
proof (rule conjI)
  obtain x where x: "attacker_relative_reward r = Inr x"
    by (cases "total_blocks r = 0") (simp_all add: attacker_relative_reward_def int_truediv_def)
  then show "\<exists>x. attacker_relative_reward r = Inr x
      \<and> (0 < alpha r \<longrightarrow> efficiency_advantage r = Inr (fl (x / alpha r)))
      \<and> (alpha r \<le> 0 \<longrightarrow> efficiency_advantage r = Inr 0)"
    by (simp add: efficiency_advantage_def float_truediv_def)
next
  have 1: "(if 0 < h then h else 1) \<noteq> 0" for h :: real by simp
  have 2: "(if 0 < \<alpha> then \<alpha> else fl 0.01) \<noteq> 0"
    using fl_positive_literals(2) by simp
  show "\<exists>rep. mev_transaction_ordering mt \<alpha> extract_probability avg_mev_per_block \<gamma> n seed g
             = (Inr rep, snd (simulate_selfish_mining mt \<alpha> \<gamma> n seed g))
        \<and> mev_attacker_blocks rep =
             attacker_blocks (fst (simulate_selfish_mining mt \<alpha> \<gamma> n seed g))
        \<and> base_revenue_btc rep =
             attacker_revenue_btc (fst (simulate_selfish_mining mt \<alpha> \<gamma> n seed g))
        \<and> mev_extractable_blocks rep =
             int_of_float (float_mul (float_of_int (mev_attacker_blocks rep)) extract_probability)
        \<and> mev_revenue_btc rep =
             float_mul (float_of_int (mev_extractable_blocks rep)) avg_mev_per_block
        \<and> total_enhanced_revenue_btc rep =
             float_add (base_revenue_btc rep) (mev_revenue_btc rep)
        \<and> mev_honest_revenue_btc rep =
             honest_revenue_btc (fst (simulate_selfish_mining mt \<alpha> \<gamma> n seed g))
        \<and> (0 < mev_honest_revenue_btc rep \<longrightarrow>
             revenue_advantage_vs_honest rep =
               fl (float_sub (total_enhanced_revenue_btc rep) (mev_honest_revenue_btc rep)
                     / mev_honest_revenue_btc rep))
        \<and> (mev_honest_revenue_btc rep \<le> 0 \<longrightarrow>
             revenue_advantage_vs_honest rep =
               fl (float_sub (total_enhanced_revenue_btc rep) (mev_honest_revenue_btc rep) / 1))"
    using 1 2
    by (simp add: mev_transaction_ordering_def Let_def case_prod_beta float_truediv_def)
qed


lemma revenue_examples:
  "attacker_revenue_btc (new_SimulationResult a c n 0 hb) = 0"
  "honest_revenue_btc (new_SimulationResult a c n ab 0) = 0"
  "attacker_revenue_btc (new_SimulationResult a c n 1 hb) = 27 / 4"
  "honest_revenue_btc (new_SimulationResult a c n ab 1) = 27 / 4"
  by (simp_all add: attacker_revenue_btc_def honest_revenue_btc_def new_SimulationResult_def
      float_mul_def float_of_int_def float_add_def fl_zero fl_one fl_idem fl_positive_literals)

lemma selfish_mining_examples:
  "simulate_selfish_mining mt (1 / 2) c 1 None (9 / 10 ## g) = (new_SimulationResult (1 / 2) c 1 0 1, g)"
  "simulate_selfish_mining mt (1 / 2) c 1 None (1 / 10 ## g) = (new_SimulationResult (1 / 2) c 1 1 0, g)"
  by (simp_all add: simulate_selfish_mining_def selfish_round_def random_random_def reseed_def)

lemma mev_examples:
  "simulate_selfish_mining mt (1 / 2) c 3 None (9 / 10 ## 1 / 10 ## 1 / 10 ## g) =
     (new_SimulationResult (1 / 2) c 3 2 1, g)"
  "attacker_revenue_btc (new_SimulationResult a c n 2 hb) = 27 / 2"
  "int_of_float (float_mul (float_of_int 2) (1 / 2)) = 1"
  "int_of_float (float_mul (float_of_int 1) (1 / 2)) = 0"
  "float_mul (float_of_int 1) (27 / 4) = 27 / 4"
  "float_mul (float_of_int 0) (27 / 4) = 0"
  "float_add (27 / 2) (27 / 4) = 81 / 4"
  "float_add (27 / 4) 0 = 27 / 4"
  "fl (float_sub (81 / 4) (27 / 4) / (27 / 4)) = 2"
  "fl (float_sub (27 / 4) 0 / 1) = 27 / 4"
proof -
  show "simulate_selfish_mining mt (1 / 2) c 3 None (9 / 10 ## 1 / 10 ## 1 / 10 ## g) =
     (new_SimulationResult (1 / 2) c 3 2 1, g)"
    by (simp add: simulate_selfish_mining_def selfish_round_def random_random_def reseed_def
        eval_nat_numeral)
  have "float_mul (float_of_int 2) (float_add 6.25 0.5) = 27 / 2" by code_simp
  then show "attacker_revenue_btc (new_SimulationResult a c n 2 hb) = 27 / 2"
    by (simp add: attacker_revenue_btc_def new_SimulationResult_def)
  show "int_of_float (float_mul (float_of_int 2) (1 / 2)) = 1" by code_simp
  show "int_of_float (float_mul (float_of_int 1) (1 / 2)) = 0" by code_simp
  show "float_mul (float_of_int 1) (27 / 4) = 27 / 4" by code_simp
  show "float_mul (float_of_int 0) (27 / 4) = 0" by code_simp
  show "float_add (27 / 2) (27 / 4) = 81 / 4" by code_simp
  show "float_add (27 / 4) 0 = 27 / 4" by code_simp
  show "fl (float_sub (81 / 4) (27 / 4) / (27 / 4)) = 2" by code_simp
  show "fl (float_sub (27 / 4) 0 / 1) = 27 / 4" by code_simp
qed

text \<open>
  In the first run below the attacker wins 2 blocks and the honest pool 1: one block is
  extractable, the enhanced revenue is \<open>13.5 + 6.75\<close> against an honest revenue of \<open>6.75\<close>,
  and the advantage is 2. In the second the honest pool wins nothing and the advantage is
  the enhanced revenue itself, divided by 1.
\<close>

theorem derived_ratios_recover_witness:
  "efficiency_advantage (new_SimulationResult (1 / 4) (9 / 10) 4 1 1) = Inr 2
   \<and> efficiency_advantage (new_SimulationResult 0 (9 / 10) 4 1 1) = Inr 0
   \<and> (\<exists>rep. fst (mev_transaction_ordering (\<lambda>s. sconst 0) (1 / 2) (1 / 2) (27 / 4) (1 / 2) 3 None
                  (9 / 10 ## 1 / 10 ## 1 / 10 ## sconst (1 / 2))) = Inr rep
          \<and> mev_extractable_blocks rep = 1
          \<and> total_enhanced_revenue_btc rep = 81 / 4
          \<and> mev_honest_revenue_btc rep = 27 / 4
          \<and> revenue_advantage_vs_honest rep = 2)
   \<and> (\<exists>rep. fst (mev_transaction_ordering (\<lambda>s. sconst 0) (1 / 2) (1 / 2) (27 / 4) (1 / 2) 1 None
                  (1 / 10 ## sconst (1 / 2))) = Inr rep
          \<and> mev_extractable_blocks rep = 0
          \<and> total_enhanced_revenue_btc rep = 27 / 4
          \<and> mev_honest_revenue_btc rep = 0
          \<and> revenue_advantage_vs_honest rep = 27 / 4)"
proof -
  let ?r1 = "new_SimulationResult (1 / 4) (9 / 10) 4 1 1"
  let ?r2 = "new_SimulationResult 0 (9 / 10) 4 1 1"
  note t1 = derived_ratios_recover[of ?r1 "\<lambda>s. sconst 0" "1 / 2" "1 / 2" "27 / 4" "1 / 2" 3 None
      "9 / 10 ## 1 / 10 ## 1 / 10 ## sconst (1 / 2)"]
  note t2 = derived_ratios_recover[of ?r2 "\<lambda>s. sconst 0" "1 / 2" "1 / 2" "27 / 4" "1 / 2" 1 None
      "1 / 10 ## sconst (1 / 2)"]
  have e: "attacker_relative_reward (new_SimulationResult a c 4 1 1) = Inr (1 / 2)" for a c
    by (simp add: attacker_relative_reward_def total_blocks_def new_SimulationResult_def
        int_truediv_def fl_half)
  have two: "fl 2 = 2" using fl_of_int[of 2] by simp
  from t1 obtain x where x: "attacker_relative_reward ?r1 = Inr x"
    and ex: "0 < alpha ?r1 \<longrightarrow> efficiency_advantage ?r1 = Inr (fl (x / alpha ?r1))"
    by blast
  from x have x2: "x = 1 / 2" by (simp add: e)
  have a1: "alpha ?r1 = 1 / 4" by (simp add: new_SimulationResult_def)
  from ex have "efficiency_advantage ?r1 = Inr (fl ((1 / 2) / (1 / 4)))"
    unfolding x2 a1 by simp
  then have A: "efficiency_advantage ?r1 = Inr 2" by (simp add: two)
  from t2 have B: "efficiency_advantage ?r2 = Inr 0"
    by (auto simp: new_SimulationResult_def)
  have ab: "attacker_blocks (new_SimulationResult a c k i j) = i" for a c k i j
    by (simp add: new_SimulationResult_def)
  from t1 obtain rep1 where rep1:
    "fst (mev_transaction_ordering (\<lambda>s. sconst 0) (1 / 2) (1 / 2) (27 / 4) (1 / 2) 3 None
       (9 / 10 ## 1 / 10 ## 1 / 10 ## sconst (1 / 2))) = Inr rep1"
    "mev_attacker_blocks rep1 = 2"
    "base_revenue_btc rep1 = 27 / 2"
    "mev_extractable_blocks rep1 =
       int_of_float (float_mul (float_of_int (mev_attacker_blocks rep1)) (1 / 2))"
    "mev_revenue_btc rep1 = float_mul (float_of_int (mev_extractable_blocks rep1)) (27 / 4)"
    "total_enhanced_revenue_btc rep1 = float_add (base_revenue_btc rep1) (mev_revenue_btc rep1)"
    "mev_honest_revenue_btc rep1 = 27 / 4"
    "0 < mev_honest_revenue_btc rep1 \<longrightarrow> revenue_advantage_vs_honest rep1 =
       fl (float_sub (total_enhanced_revenue_btc rep1) (mev_honest_revenue_btc rep1)
             / mev_honest_revenue_btc rep1)"
    by (auto simp: mev_examples revenue_examples ab)
  have m1: "mev_extractable_blocks rep1 = 1"
    unfolding rep1(4) rep1(2) by (rule mev_examples)
  have v1: "mev_revenue_btc rep1 = 27 / 4"
    unfolding rep1(5) m1 by (rule mev_examples)
  have t1': "total_enhanced_revenue_btc rep1 = 81 / 4"
    unfolding rep1(6) rep1(3) v1 by (rule mev_examples)
  from rep1(8) have "revenue_advantage_vs_honest rep1 = fl (float_sub (81 / 4) (27 / 4) / (27 / 4))"
    unfolding t1' rep1(7) by simp
  then have adv1: "revenue_advantage_vs_honest rep1 = 2"
    by (simp only: mev_examples)
  from rep1(1) m1 t1' rep1(7) adv1 have C:
    "\<exists>rep. fst (mev_transaction_ordering (\<lambda>s. sconst 0) (1 / 2) (1 / 2) (27 / 4) (1 / 2) 3 None
                  (9 / 10 ## 1 / 10 ## 1 / 10 ## sconst (1 / 2))) = Inr rep
          \<and> mev_extractable_blocks rep = 1
          \<and> total_enhanced_revenue_btc rep = 81 / 4
          \<and> mev_honest_revenue_btc rep = 27 / 4
          \<and> revenue_advantage_vs_honest rep = 2"
    by blast
  from t2 obtain rep2 where rep2:
    "fst (mev_transaction_ordering (\<lambda>s. sconst 0) (1 / 2) (1 / 2) (27 / 4) (1 / 2) 1 None
       (1 / 10 ## sconst (1 / 2))) = Inr rep2"
    "mev_attacker_blocks rep2 = 1"
    "base_revenue_btc rep2 = 27 / 4"
    "mev_extractable_blocks rep2 =
       int_of_float (float_mul (float_of_int (mev_attacker_blocks rep2)) (1 / 2))"
    "mev_revenue_btc rep2 = float_mul (float_of_int (mev_extractable_blocks rep2)) (27 / 4)"
    "total_enhanced_revenue_btc rep2 = float_add (base_revenue_btc rep2) (mev_revenue_btc rep2)"
    "mev_honest_revenue_btc rep2 = 0"
    "mev_honest_revenue_btc rep2 \<le> 0 \<longrightarrow> revenue_advantage_vs_honest rep2 =
       fl (float_sub (total_enhanced_revenue_btc rep2) (mev_honest_revenue_btc rep2) / 1)"
    by (auto simp: selfish_mining_examples revenue_examples ab)
  have m2: "mev_extractable_blocks rep2 = 0"
    unfolding rep2(4) rep2(2) by (rule mev_examples)
  have v2: "mev_revenue_btc rep2 = 0"
    unfolding rep2(5) m2 by (rule mev_examples)
  have t2': "total_enhanced_revenue_btc rep2 = 27 / 4"
    unfolding rep2(6) rep2(3) v2 by (rule mev_examples)
  from rep2(8) have "revenue_advantage_vs_honest rep2 = fl (float_sub (27 / 4) 0 / 1)"
    unfolding t2' rep2(7) by simp
  then have adv2: "revenue_advantage_vs_honest rep2 = 27 / 4"
    by (simp only: mev_examples)
  from rep2(1) m2 t2' rep2(7) adv2 have D:
    "\<exists>rep. fst (mev_transaction_ordering (\<lambda>s. sconst 0) (1 / 2) (1 / 2) (27 / 4) (1 / 2) 1 None
                  (1 / 10 ## sconst (1 / 2))) = Inr rep
          \<and> mev_extractable_blocks rep = 0
          \<and> total_enhanced_revenue_btc rep = 27 / 4
          \<and> mev_honest_revenue_btc rep = 0
          \<and> revenue_advantage_vs_honest rep = 27 / 4"
    by blast
  from A B C D show ?thesis by blast
qed


section \<open>Claims about the scenario functions\<close>

text \<open>
  C9. \<open>pool_cooperative_mining\<close> returns the result of \<open>simulate_selfish_mining\<close> run at the
  effective share \<open>max(0, alpha - 0.02 * (num_pools - 1))\<close> with the same \<open>gamma\<close>, \<open>rounds\<close>
  and seed, with its \<open>alpha\<close> field overwritten by the nominal \<open>alpha\<close>; every other field,
  and the state of the generator, are those of the effective-share run.
\<close>

theorem pool_cooperative_relabels:
  "pool_cooperative_mining mt \<alpha> num_pools \<gamma> n seed g =
     ((fst (simulate_selfish_mining mt
              (max 0 (float_sub \<alpha> (float_mul (fl 0.02) (float_of_int (num_pools - 1)))))
              \<gamma> n seed g))\<lparr>alpha := \<alpha>\<rparr>,
      snd (simulate_selfish_mining mt
              (max 0 (float_sub \<alpha> (float_mul (fl 0.02) (float_of_int (num_pools - 1)))))
              \<gamma> n seed g))
   \<and> alpha (fst (pool_cooperative_mining mt \<alpha> num_pools \<gamma> n seed g)) = \<alpha>
   \<and> gamma (fst (pool_cooperative_mining mt \<alpha> num_pools \<gamma> n seed g)) = \<gamma>
   \<and> rounds (fst (pool_cooperative_mining mt \<alpha> num_pools \<gamma> n seed g)) = n
   \<and> attacker_blocks (fst (pool_cooperative_mining mt \<alpha> num_pools \<gamma> n seed g)) =
       attacker_blocks (fst (simulate_selfish_mining mt
              (max 0 (float_sub \<alpha> (float_mul (fl 0.02) (float_of_int (num_pools - 1)))))
              \<gamma> n seed g))
   \<and> honest_blocks (fst (pool_cooperative_mining mt \<alpha> num_pools \<gamma> n seed g)) =
       honest_blocks (fst (simulate_selfish_mining mt
              (max 0 (float_sub \<alpha> (float_mul (fl 0.02) (float_of_int (num_pools - 1)))))
              \<gamma> n seed g))"
  by (simp add: pool_cooperative_mining_def Let_def case_prod_beta simulate_selfish_mining_fields)

lemma effective_alpha_example:
  "\<not> 12 / 25 < max 0 (float_sub (1 / 2) (float_mul (fl 0.02) (float_of_int (3 - 1))))"
  "(12::real) / 25 < 1 / 2"
  by code_simp+

theorem pool_cooperative_relabels_witness:
  "pool_cooperative_mining (\<lambda>s. sconst 0) (1 / 2) 3 (1 / 2) 1 None (12 / 25 ## sconst (1 / 2)) =
     (new_SimulationResult (1 / 2) (1 / 2) 1 0 1, sconst (1 / 2))
   \<and> fst (simulate_selfish_mining (\<lambda>s. sconst 0) (1 / 2) (1 / 2) 1 None (12 / 25 ## sconst (1 / 2))) =
     new_SimulationResult (1 / 2) (1 / 2) 1 1 0"
  using pool_cooperative_relabels[of "\<lambda>s. sconst 0" "1 / 2" 3 "1 / 2" 1 None
      "12 / 25 ## sconst (1 / 2)"] effective_alpha_example
  by (simp add: simulate_selfish_mining_def selfish_round_def random_random_def reseed_def
      new_SimulationResult_def)

lemma attacker_revenue_btc_rounded: "fl (attacker_revenue_btc r) = attacker_revenue_btc r"
  by (simp add: attacker_revenue_btc_def float_mul_def fl_idem)

text \<open>
  C6, as amended. For \<open>num_chains = 1\<close> and a given seed \<open>s\<close>, \<open>cross_chain_attack\<close> returns
  a report whose \<open>multiplier_effect\<close> is exactly 1, whose coordination overhead is 0 and whose
  revenue after cost is the single-chain revenue, for every \<open>alpha\<close>, \<open>gamma\<close> and
  \<open>rounds_per_chain\<close>.
\<close>

theorem cross_chain_single_seeded:
  "\<exists>rep. fst (cross_chain_attack mt \<alpha> 1 \<gamma> rounds_per_chain (Some s) g) = Inr rep
     \<and> multiplier_effect (revenue_comparison rep) = 1
     \<and> coordination_overhead_percent (revenue_comparison rep) = 0
     \<and> multi_chain_total_after_cost_btc (revenue_comparison rep) =
         single_chain_btc (revenue_comparison rep)
     \<and> single_chain_btc (revenue_comparison rep) =
         attacker_revenue_btc (fst (simulate_selfish_mining mt \<alpha> \<gamma> rounds_per_chain (Some s) g))"
proof -
  let ?R = "simulate_selfish_mining mt \<alpha> \<gamma> rounds_per_chain (Some s) g"
  let ?rev = "attacker_revenue_btc (fst ?R)"
  have loop: "chains_loop mt \<alpha> \<gamma> rounds_per_chain (Some s) (nat 1) 0 ([], 0, g) =
      ([fst ?R], ?rev, snd ?R)"
    by (simp add: Let_def case_prod_beta float_add_def attacker_revenue_btc_rounded)
  have again: "simulate_selfish_mining mt \<alpha> \<gamma> rounds_per_chain (Some s) (snd ?R) = ?R"
    by (rule simulate_selfish_mining_seeded)
  have overhead: "float_mul (fl 0.01) (float_of_int (1 - 1)) = 0"
    by (simp add: float_mul_def float_of_int_def fl_zero)
  have eff: "float_mul ?rev (float_sub 1 0) = ?rev"
    by (simp add: float_mul_def float_sub_def fl_one attacker_revenue_btc_rounded)
  have pct: "float_mul 0 100 = 0"
    by (simp add: float_mul_def fl_zero)
  show ?thesis
  proof (cases "0 < ?rev")
    case True
    then have d: "float_truediv ?rev ?rev = Inr 1"
      by (simp add: float_truediv_def fl_one)
    show ?thesis
      unfolding cross_chain_attack_def Let_def overhead loop
      using True by (simp add: again case_prod_beta eff d pct)
  next
    case False
    show ?thesis
      unfolding cross_chain_attack_def Let_def overhead loop
      using False by (simp add: again case_prod_beta eff pct)
  qed
qed

theorem cross_chain_single_seeded_witness:
  "\<exists>rep. fst (cross_chain_attack (\<lambda>s. sconst 0) (1 / 2) 1 (1 / 2) 3 (Some 7) (sconst 0)) = Inr rep
     \<and> multiplier_effect (revenue_comparison rep) = 1
     \<and> coordination_overhead_percent (revenue_comparison rep) = 0
     \<and> multi_chain_total_after_cost_btc (revenue_comparison rep) =
         single_chain_btc (revenue_comparison rep)
     \<and> single_chain_btc (revenue_comparison rep) =
         attacker_revenue_btc
           (fst (simulate_selfish_mining (\<lambda>s. sconst 0) (1 / 2) (1 / 2) 3 (Some 7) (sconst 0)))"
  by (rule cross_chain_single_seeded)

text \<open>
  C6, as stated, fails without a seed: the single-chain baseline is then a second run on the
  draws that follow those of the chain's run. Here the chain's run wins no block and the
  baseline wins one, so the multiplier is 0.
\<close>

theorem cross_chain_unseeded_counterexample:
  "\<not> isl (fst (cross_chain_attack (\<lambda>s. sconst 0) (1 / 2) 1 (1 / 2) 1 None
             (9 / 10 ## 1 / 10 ## sconst (1 / 2))))
   \<and> multiplier_effect (revenue_comparison (projr (fst
         (cross_chain_attack (\<lambda>s. sconst 0) (1 / 2) 1 (1 / 2) 1 None
             (9 / 10 ## 1 / 10 ## sconst (1 / 2)))))) = 0
   \<and> multiplier_effect (revenue_comparison (projr (fst
         (cross_chain_attack (\<lambda>s. sconst 0) (1 / 2) 1 (1 / 2) 1 None
             (9 / 10 ## 1 / 10 ## sconst (1 / 2)))))) \<noteq> 1"
  by (simp add: cross_chain_attack_def Let_def selfish_mining_examples revenue_examples
      float_add_def float_mul_def float_truediv_def fl_zero)


end
